theory Spec2Isabelle
  imports Main "HOL-Library.Word" "HOL-Library.List_Lexorder" "HOL-Library.Char_ord"
begin

section \<open>The HealthFactRegistry contract\<close>

text \<open>
  The contract \<^verbatim>\<open>HealthFactRegistry\<close> (Solidity 0.8) is embedded as a state record and one
  function per external entry point. A call that reverts is \<open>Inl\<close> of the revert reason and
  leaves the state as it was; a call that returns is \<open>Inr\<close> of the new state and the events
  it emitted. Solidity value types are words of their width; a \<^verbatim>\<open>mapping\<close> is a total
  function whose value at an unwritten key is the all-zero value of its type.
\<close>

type_synonym bytes32 = "256 word"
type_synonym address = "160 word"
type_synonym uint16 = "16 word"
type_synonym uint64 = "64 word"
type_synonym uint256 = "256 word"

datatype Verdict = TRUE | FALSE | MISLEADING | UNPROVEN | PARTIALLY_TRUE

datatype Severity = LOW | MEDIUM | HIGH | CRITICAL

datatype Status = ACTIVE | SUPERSEDED | WITHDRAWN

record HealthFact =
  factHash :: bytes32
  factId :: string
  verdict :: Verdict
  severity :: Severity
  issuedAt :: uint64
  lastReviewedAt :: uint64
  version :: uint16
  status :: Status
  addedBy :: address
  addedAtBlock :: uint64

record registry =
  owner :: address
  factsByHash :: "bytes32 \<Rightarrow> HealthFact"
  hashByFactId :: "string \<Rightarrow> bytes32"
  allFactHashes :: "bytes32 list"
  totalFacts :: uint256

text \<open>The part of the transaction context the contract reads.\<close>

record txctx =
  msg_sender :: address
  block_timestamp :: uint256
  block_number :: uint256

text \<open>The events as they appear in the log. A parameter declared \<^verbatim>\<open>string indexed\<close> is logged
  as a topic, the keccak256 digest of the string, and not as the string: the fact id of
  \<^verbatim>\<open>FactAdded\<close> and \<^verbatim>\<open>FactUpdated\<close>. The digest is kept symbolic, as \<open>Keccak256\<close> of the
  string; no statement here rests on different strings having different digests. Indexed
  parameters of a value type (\<^verbatim>\<open>bytes32\<close>, \<^verbatim>\<open>address\<close>) are logged as they are.\<close>

datatype topic = Keccak256 string

datatype event =
    FactAdded bytes32 topic Verdict Severity address uint64
  | FactUpdated bytes32 topic Status Status address uint64
  | OwnershipTransferred address address uint64

text \<open>One constructor per \<^verbatim>\<open>require\<close> message of the contract, in the order of the source,
  and the checked-arithmetic panic of \<^verbatim>\<open>totalFacts++\<close>.\<close>

datatype revert =
    CallerIsNotTheOwner
  | FactAlreadyExists
  | FactDoesNotExist
  | InvalidFactHash
  | EmptyFactId
  | VersionMustBeAtLeast1
  | FutureIssuedAtTimestamp
  | LastReviewedAtBeforeIssuedAt
  | FactIdAlreadyExists
  | StatusUnchanged
  | FactIdNotFound
  | NewOwnerIsZeroAddress
  | NewOwnerIsCurrentOwner
  | ArithmeticOverflow

type_synonym 'a result = "revert + 'a"

text \<open>The value of \<^verbatim>\<open>factsByHash\<close> at a key never written: every field zero, so the verdict
  is \<open>TRUE\<close>, the severity \<open>LOW\<close> and the status \<open>ACTIVE\<close> (the enum values 0).\<close>

definition zeroFact :: HealthFact where
  "zeroFact = \<lparr> factHash = 0, factId = [], verdict = TRUE, severity = LOW, issuedAt = 0,
     lastReviewedAt = 0, version = 0, status = ACTIVE, addedBy = 0, addedAtBlock = 0 \<rparr>"

definition constructor :: "txctx \<Rightarrow> registry \<times> event list" where
  "constructor c =
     (\<lparr> owner = msg_sender c, factsByHash = (\<lambda>_. zeroFact), hashByFactId = (\<lambda>_. 0),
        allFactHashes = [], totalFacts = 0 \<rparr>,
      [OwnershipTransferred 0 (msg_sender c) (ucast (block_timestamp c))])"

definition addFact ::
  "txctx \<Rightarrow> registry \<Rightarrow> bytes32 \<Rightarrow> string \<Rightarrow> Verdict \<Rightarrow> Severity \<Rightarrow> uint64 \<Rightarrow> uint64 \<Rightarrow> uint16
     \<Rightarrow> (registry \<times> event list) result" where
  "addFact c s h fid v sv ia lr ver =
     (if msg_sender c \<noteq> owner s then Inl CallerIsNotTheOwner
      else if factHash (factsByHash s h) \<noteq> 0 then Inl FactAlreadyExists
      else if h = 0 then Inl InvalidFactHash
      else if \<not> length fid > 0 then Inl EmptyFactId
      else if \<not> ver > 0 then Inl VersionMustBeAtLeast1
      else if \<not> unat ia \<le> unat (block_timestamp c) then Inl FutureIssuedAtTimestamp
      else if \<not> lr \<ge> ia then Inl LastReviewedAtBeforeIssuedAt
      else if hashByFactId s fid \<noteq> 0 then Inl FactIdAlreadyExists
      else if totalFacts s = - 1 then Inl ArithmeticOverflow
      else
        let newFact = \<lparr> factHash = h, factId = fid, verdict = v, severity = sv, issuedAt = ia,
              lastReviewedAt = lr, version = ver, status = ACTIVE, addedBy = msg_sender c,
              addedAtBlock = ucast (block_number c) \<rparr>
        in Inr (s \<lparr> factsByHash := (factsByHash s)(h := newFact),
                    hashByFactId := (hashByFactId s)(fid := h),
                    allFactHashes := allFactHashes s @ [h],
                    totalFacts := totalFacts s + 1 \<rparr>,
                [FactAdded h (Keccak256 fid) v sv (msg_sender c) ia]))"

definition updateFactStatus ::
  "txctx \<Rightarrow> registry \<Rightarrow> bytes32 \<Rightarrow> Status \<Rightarrow> (registry \<times> event list) result" where
  "updateFactStatus c s h newStatus =
     (if msg_sender c \<noteq> owner s then Inl CallerIsNotTheOwner
      else if \<not> factHash (factsByHash s h) \<noteq> 0 then Inl FactDoesNotExist
      else
        let fact = factsByHash s h; oldStatus = status fact
        in if \<not> oldStatus \<noteq> newStatus then Inl StatusUnchanged
           else Inr (s \<lparr> factsByHash := (factsByHash s)(h := fact \<lparr> status := newStatus \<rparr>) \<rparr>,
                     [FactUpdated h (Keccak256 (factId fact)) oldStatus newStatus (msg_sender c)
                        (ucast (block_timestamp c))]))"

definition getFactByHash :: "registry \<Rightarrow> bytes32 \<Rightarrow> HealthFact result" where
  "getFactByHash s h =
     (if \<not> factHash (factsByHash s h) \<noteq> 0 then Inl FactDoesNotExist
      else Inr (factsByHash s h))"

definition getFactById :: "registry \<Rightarrow> string \<Rightarrow> HealthFact result" where
  "getFactById s fid =
     (let h = hashByFactId s fid
      in if \<not> h \<noteq> 0 then Inl FactIdNotFound else Inr (factsByHash s h))"

definition checkFactExists :: "registry \<Rightarrow> bytes32 \<Rightarrow> bool \<times> Status" where
  "checkFactExists s h =
     (let fact = factsByHash s h in (factHash fact \<noteq> 0, status fact))"

definition getAllFactHashes :: "registry \<Rightarrow> bytes32 list" where
  "getAllFactHashes s = allFactHashes s"

definition transferOwnership :: "txctx \<Rightarrow> registry \<Rightarrow> address \<Rightarrow> (registry \<times> event list) result" where
  "transferOwnership c s newOwner =
     (if msg_sender c \<noteq> owner s then Inl CallerIsNotTheOwner
      else if \<not> newOwner \<noteq> 0 then Inl NewOwnerIsZeroAddress
      else if \<not> newOwner \<noteq> owner s then Inl NewOwnerIsCurrentOwner
      else Inr (s \<lparr> owner := newOwner \<rparr>,
                [OwnershipTransferred (owner s) newOwner (ucast (block_timestamp c))]))"

subsection \<open>Sequences of transactions\<close>

text \<open>A transaction is a call of one of the three state-changing entry points under its own
  context. A reverted transaction leaves the state unchanged.\<close>

datatype call =
    AddFact bytes32 string Verdict Severity uint64 uint64 uint16
  | UpdateFactStatus bytes32 Status
  | TransferOwnership address

fun exec :: "registry \<Rightarrow> txctx \<times> call \<Rightarrow> (registry \<times> event list) result" where
  "exec s (c, AddFact h fid v sv ia lr ver) = addFact c s h fid v sv ia lr ver"
| "exec s (c, UpdateFactStatus h st) = updateFactStatus c s h st"
| "exec s (c, TransferOwnership a) = transferOwnership c s a"

definition apply_tx :: "registry \<Rightarrow> txctx \<times> call \<Rightarrow> registry" where
  "apply_tx s t = (case exec s t of Inl _ \<Rightarrow> s | Inr (s', _) \<Rightarrow> s')"

fun run_txs :: "registry \<Rightarrow> (txctx \<times> call) list \<Rightarrow> registry" where
  "run_txs s [] = s"
| "run_txs s (t # ts) = run_txs (apply_tx s t) ts"

text \<open>Whether some transaction of the sequence, run from \<open>s\<close>, registers the hash \<open>h\<close>: it
  is a call of \<^verbatim>\<open>addFact\<close> with that hash, and it does not revert.\<close>

fun registers :: "registry \<Rightarrow> txctx \<times> call \<Rightarrow> bytes32 \<Rightarrow> bool" where
  "registers s (c, AddFact h' fid v sv ia lr ver) h =
     (h' = h \<and> \<not> isl (addFact c s h' fid v sv ia lr ver))"
| "registers s (c, UpdateFactStatus h' st) h = False"
| "registers s (c, TransferOwnership a) h = False"

fun ever_registered :: "registry \<Rightarrow> (txctx \<times> call) list \<Rightarrow> bytes32 \<Rightarrow> bool" where
  "ever_registered s [] h = False"
| "ever_registered s (t # ts) h = (registers s t h \<or> ever_registered (apply_tx s t) ts h)"

section \<open>The canonicalizer and hasher of \<^verbatim>\<open>canonicalHash.js\<close>\<close>

text \<open>
  A JavaScript value of the shape the canonicalizer is applied to: the primitives
  \<^verbatim>\<open>undefined\<close>, \<^verbatim>\<open>null\<close>, booleans, numbers and strings, arrays, and plain objects. An
  object is the list of its own properties in insertion order, with pairwise distinct keys.
  A string is the list of its code units, here the code units below 256. A number is an
  integer of magnitude at most \<open>2\<^sup>5\<^sup>3\<close>, which JavaScript prints in decimal, or one of the
  three non-finite values; fractions are not modelled. Values that are not of this shape
  (BigInt, symbols, functions, cyclic objects) are not modelled either.
\<close>

datatype jsnum = Finite int | NaN | PosInfinity | NegInfinity

datatype primitive = Undefined | Null | Bool bool | Num jsnum | Str string

datatype json = Prim primitive | Arr "json list" | Obj "(string \<times> json) list"

definition digitChar :: "nat \<Rightarrow> char" where
  "digitChar n = ''0123456789abcdef'' ! n"

fun digits :: "nat \<Rightarrow> string" where
  "digits n = (if n < 10 then [digitChar n] else digits (n div 10) @ [digitChar (n mod 10)])"

declare digits.simps [simp del]

definition NumberToString :: "int \<Rightarrow> string" where
  "NumberToString i = (if i < 0 then CHR ''-'' # digits (nat (- i)) else digits (nat i))"

text \<open>\<^verbatim>\<open>JSON.stringify\<close> on a string: the quoting of ECMAScript's QuoteJSONString. The
  character \<open>CHR 0x22\<close> is the double quote and \<open>CHR 0x5C\<close> the backslash.\<close>

definition escapeChar :: "char \<Rightarrow> string" where
  "escapeChar c =
     (let n = (of_char c :: nat) in
      if n = 0x08 then [CHR 0x5C, CHR ''b'']
      else if n = 0x09 then [CHR 0x5C, CHR ''t'']
      else if n = 0x0A then [CHR 0x5C, CHR ''n'']
      else if n = 0x0C then [CHR 0x5C, CHR ''f'']
      else if n = 0x0D then [CHR 0x5C, CHR ''r'']
      else if n = 0x22 then [CHR 0x5C, CHR 0x22]
      else if n = 0x5C then [CHR 0x5C, CHR 0x5C]
      else if n < 0x20 then
        [CHR 0x5C, CHR ''u'', CHR ''0'', CHR ''0'', digitChar (n div 16), digitChar (n mod 16)]
      else [c])"

definition QuoteJSONString :: "string \<Rightarrow> string" where
  "QuoteJSONString s = CHR 0x22 # concat (map escapeChar s) @ [CHR 0x22]"

text \<open>\<^verbatim>\<open>JSON.stringify\<close> on a primitive. It returns \<^verbatim>\<open>undefined\<close> (here \<open>None\<close>) for
  \<^verbatim>\<open>undefined\<close>, and the text \<^verbatim>\<open>null\<close> for a number that is not finite.\<close>

fun JSON_stringify :: "primitive \<Rightarrow> string option" where
  "JSON_stringify Undefined = None"
| "JSON_stringify Null = Some ''null''"
| "JSON_stringify (Bool b) = Some (if b then ''true'' else ''false'')"
| "JSON_stringify (Num (Finite i)) = Some (NumberToString i)"
| "JSON_stringify (Num n) = Some ''null''"
| "JSON_stringify (Str s) = Some (QuoteJSONString s)"

text \<open>\<^verbatim>\<open>Array.prototype.join\<close>, on elements already turned into strings.\<close>

fun join :: "string \<Rightarrow> string list \<Rightarrow> string" where
  "join sep [] = []"
| "join sep [x] = x"
| "join sep (x # y # ys) = x @ sep @ join sep (y # ys)"

text \<open>How a result of \<^verbatim>\<open>canonicalizeJSON\<close> that may be \<^verbatim>\<open>undefined\<close> becomes text:
  \<^verbatim>\<open>join\<close> turns an \<^verbatim>\<open>undefined\<close> element into the empty string, a template literal
  turns it into the text \<^verbatim>\<open>undefined\<close>.\<close>

definition joinItem :: "string option \<Rightarrow> string" where
  "joinItem r = (case r of None \<Rightarrow> [] | Some t \<Rightarrow> t)"

definition templateValue :: "string option \<Rightarrow> string" where
  "templateValue r = (case r of None \<Rightarrow> ''undefined'' | Some t \<Rightarrow> t)"

text \<open>The template literal of one key and its canonicalized value.\<close>

definition pairText :: "string \<Rightarrow> string option \<Rightarrow> string" where
  "pairText key value = [CHR 0x22] @ key @ [CHR 0x22] @ '':'' @ templateValue value"

text \<open>\<^verbatim>\<open>canonicalizeJSON\<close>. The keys are sorted by \<^verbatim>\<open>Array.prototype.sort\<close> without a
  comparator, which orders strings by their code units: the lexicographic order of
  \<^typ>\<open>string\<close>. The value of a key is read back with \<^verbatim>\<open>obj[key]\<close>.\<close>

function canonicalizeJSON :: "json \<Rightarrow> string option" where
  "canonicalizeJSON (Prim p) = JSON_stringify p"
| "canonicalizeJSON (Arr xs) =
     Some (''['' @ join '','' (map (\<lambda>x. joinItem (canonicalizeJSON x)) xs) @ '']'')"
| "canonicalizeJSON (Obj kvs) =
     (let keys = sort (map fst kvs);
          pairs = map (\<lambda>key.
            let value = (case map_of kvs key of None \<Rightarrow> None | Some v \<Rightarrow> canonicalizeJSON v)
            in pairText key value) keys
      in Some (''{'' @ join '','' pairs @ ''}''))"
  by pat_completeness auto
termination
proof (relation "measure size")
  show "wf (measure size)" by simp
next
  fix xs :: "json list" and x
  assume "x \<in> set xs"
  then have "size x < Suc (size_list size xs)"
    by (induction xs) auto
  then show "(x, Arr xs) \<in> measure size" by simp
next
  fix kvs :: "(string \<times> json) list" and keys key v
  assume "map_of kvs key = Some v"
  then have "(key, v) \<in> set kvs" by (rule map_of_SomeD)
  then have "size v < Suc (size_list (size_prod (\<lambda>_. 0) size) kvs)"
    by (induction kvs) auto
  then show "(v, Obj kvs) \<in> measure size" by simp
qed

text \<open>Reading a property of an object: \<^verbatim>\<open>undefined\<close> when the object has no such key.\<close>

definition getField :: "(string \<times> json) list \<Rightarrow> string \<Rightarrow> json" where
  "getField obj key = (case map_of obj key of None \<Rightarrow> Prim Undefined | Some v \<Rightarrow> v)"

text \<open>Assigning a property: an existing key keeps its place, a new key goes last.\<close>

fun setField :: "(string \<times> json) list \<Rightarrow> string \<Rightarrow> json \<Rightarrow> (string \<times> json) list" where
  "setField [] key v = [(key, v)]"
| "setField ((k, w) # kvs) key v =
     (if k = key then (k, v) # kvs else (k, w) # setField kvs key v)"

text \<open>The values that \<^verbatim>\<open>||\<close> keeps.\<close>

fun truthy :: "json \<Rightarrow> bool" where
  "truthy (Prim Undefined) = False"
| "truthy (Prim Null) = False"
| "truthy (Prim (Bool b)) = b"
| "truthy (Prim (Num (Finite i))) = (i \<noteq> 0)"
| "truthy (Prim (Num NaN)) = False"
| "truthy (Prim (Num n)) = True"
| "truthy (Prim (Str s)) = (s \<noteq> [])"
| "truthy (Arr xs) = True"
| "truthy (Obj kvs) = True"

text \<open>The object that \<^verbatim>\<open>hashFactJSON\<close> builds from its argument, properties in the order
  of the source.\<close>

definition factObj :: "(string \<times> json) list \<Rightarrow> json" where
  "factObj factData = Obj
     [(''id'', getField factData ''fact_id''),
      (''claim'', getField factData ''claim_text''),
      (''verdict'', getField factData ''verdict''),
      (''severity'', getField factData ''severity''),
      (''summary'', getField factData ''summary''),
      (''evidence'',
         (if truthy (getField factData ''evidence'') then getField factData ''evidence'' else Arr [])),
      (''topics'',
         (if truthy (getField factData ''topics'') then getField factData ''topics'' else Arr [])),
      (''issued_at'', getField factData ''issued_at''),
      (''last_reviewed_at'', getField factData ''issued_at''),
      (''version'', Prim (Num (Finite 1))),
      (''status'', Prim (Str ''active''))]"

text \<open>\<^verbatim>\<open>hashFactJSON\<close>. The digest is a parameter: \<open>sha256 t\<close> stands for the SHA-256 digest
  of the UTF-8 encoding of the text \<open>t\<close> (\<^verbatim>\<open>TextEncoder.encode\<close> of \<^verbatim>\<open>undefined\<close> is the
  empty byte sequence).\<close>

definition hashFactJSON :: "(string \<Rightarrow> 'h) \<Rightarrow> (string \<times> json) list \<Rightarrow> 'h" where
  "hashFactJSON sha256 factData =
     (let canonical = canonicalizeJSON (factObj factData)
      in sha256 (joinItem canonical))"

text \<open>Two values that hold the same data and differ at most in the insertion order of the
  keys of their objects, at any depth. Arrays keep their order.\<close>

inductive sameUpToKeyOrder :: "json \<Rightarrow> json \<Rightarrow> bool" where
  prim: "sameUpToKeyOrder (Prim p) (Prim p)"
| arr: "list_all2 sameUpToKeyOrder xs ys \<Longrightarrow> sameUpToKeyOrder (Arr xs) (Arr ys)"
| obj: "distinct (map fst kvs) \<Longrightarrow> distinct (map fst kvs') \<Longrightarrow>
        set (map fst kvs) = set (map fst kvs') \<Longrightarrow>
        (\<forall>k v v'. map_of kvs k = Some v \<longrightarrow> map_of kvs' k = Some v' \<longrightarrow> sameUpToKeyOrder v v') \<Longrightarrow>
        sameUpToKeyOrder (Obj kvs) (Obj kvs')"

text \<open>An evidence entry of the fact schema: an object of four strings.\<close>

definition evidenceEntry :: "string \<times> string \<times> string \<times> string \<Rightarrow> json" where
  "evidenceEntry e = (case e of (url, title, checksum, accessed_at) \<Rightarrow>
     Obj [(''url'', Prim (Str url)), (''title'', Prim (Str title)),
          (''checksum'', Prim (Str checksum)), (''accessed_at'', Prim (Str accessed_at))])"

section \<open>The registration script \<^verbatim>\<open>add_who_facts.js\<close>\<close>

text \<open>
  A fact file, parsed; it holds an object. The properties the script passes to the contract
  are typed as the fact schema requires them. The claim text is kept as the JSON value the
  file holds (\<open>Undefined\<close> when the property is absent), since the script calls a string
  method on it. The remaining properties (summary, evidence, topics, status) are seen by the
  hash only. Reading and parsing the files and the transport to the chain are outside the
  model.
\<close>

record factJson =
  id_field :: string
  claim_text :: json
  verdict_field :: string
  severity_field :: string
  issued_at :: string
  last_reviewed_at :: string
  version_field :: int
  other_fields :: "(string \<times> json) list"

text \<open>
  What \<^verbatim>\<open>require\<close> returns for a package: a function, or an object of exports (given by
  their names), which cannot be called.
\<close>

datatype required = Function "factJson \<Rightarrow> string" | ModuleObject "string list"

text \<open>
  The package \<^verbatim>\<open>json-canonicalize\<close> as it is published: its module is an object with the two
  functions \<^verbatim>\<open>canonicalize\<close> and \<^verbatim>\<open>canonicalizeEx\<close>; the module itself is not a function.
\<close>

definition json_canonicalize_package :: required where
  "json_canonicalize_package = ModuleObject [''canonicalize'', ''canonicalizeEx'']"

text \<open>
  What the script takes from its platform and libraries: the value that
  \<^verbatim>\<open>require("json-canonicalize")\<close> binds to the name \<^verbatim>\<open>canonicalize\<close>, the SHA-256 digest (its
  hexadecimal text read as the 32 bytes it denotes), \<^verbatim>\<open>new Date(s).getTime()\<close> (\<open>None\<close> for
  \<^verbatim>\<open>NaN\<close>), and the ABI encoder of the contract library, which throws (\<open>None\<close>) on an
  argument it cannot encode as the parameter's type.
\<close>

record platform =
  canonicalize :: required
  sha256 :: "string \<Rightarrow> bytes32"
  getTime :: "string \<Rightarrow> int option"
  abiEncode :: "nat option \<Rightarrow> nat option \<Rightarrow> int option \<Rightarrow> int option \<Rightarrow> int
                  \<Rightarrow> (Verdict \<times> Severity \<times> uint64 \<times> uint64 \<times> uint16) option"

text \<open>What ends the script before its summary: the error thrown when the signer is not the
  owner, and a \<^verbatim>\<open>TypeError\<close> thrown outside the \<^verbatim>\<open>try\<close> block.\<close>

datatype abort = SignerIsNotTheContractOwner | TypeError

text \<open>\<^verbatim>\<open>computeFactHash\<close> calls the value bound to \<^verbatim>\<open>canonicalize\<close>. Calling a value that
  is not a function throws a \<^verbatim>\<open>TypeError\<close>.\<close>

definition computeFactHash :: "platform \<Rightarrow> factJson \<Rightarrow> abort + bytes32" where
  "computeFactHash P factJson =
     (case canonicalize P of
        Function f \<Rightarrow> (let canonical = f factJson in Inr (sha256 P canonical))
      | ModuleObject exports \<Rightarrow> Inl TypeError)"

text \<open>The enum tables. \<open>None\<close> stands for every result that is not a number of the table:
  \<^verbatim>\<open>undefined\<close> for a key the table does not have, or a member inherited from
  \<^verbatim>\<open>Object.prototype\<close> (for a key such as \<^verbatim>\<open>constructor\<close>).\<close>

definition verdictToEnum :: "string \<Rightarrow> nat option" where
  "verdictToEnum v = map_of
     [(''true'', 0), (''false'', 1), (''misleading'', 2), (''unproven'', 3),
      (''partially_true'', 4)] v"

definition severityToEnum :: "string \<Rightarrow> nat option" where
  "severityToEnum v = map_of [(''low'', 0), (''medium'', 1), (''high'', 2), (''critical'', 3)] v"

definition isoToUnix :: "platform \<Rightarrow> string \<Rightarrow> int option" where
  "isoToUnix P isoString = map_option (\<lambda>ms. ms div 1000) (getTime P isoString)"

text \<open>Whether \<^verbatim>\<open>value.substring(0, 80)\<close> can be evaluated: only a string has the method;
  on any other value of a parsed file the call throws a \<^verbatim>\<open>TypeError\<close>.\<close>

fun hasSubstring :: "json \<Rightarrow> bool" where
  "hasSubstring (Prim (Str t)) = True"
| "hasSubstring _ = False"

text \<open>What the console shows for one record: skipped with the status the probe returned,
  registered, or failed, either because the contract rejected the call or because the
  arguments could not be encoded. Both failures are thrown inside the \<^verbatim>\<open>try\<close> block.\<close>

datatype failure = Rejected revert | NotEncodable

datatype outcome = Skipped Status | Registered | Failed failure



text \<open>The body of the loop for one fact file. Its transaction is mined in a block of its
  own, given with the record as timestamp and number; the sender is the signer. The hash
  is computed and the claim text is logged before the \<^verbatim>\<open>try\<close> block, so what they throw
  ends the script (\<open>Inl\<close>); what the call of \<^verbatim>\<open>addFact\<close> throws is caught.\<close>

definition processFact ::
  "platform \<Rightarrow> address \<Rightarrow> registry \<Rightarrow> (uint256 \<times> uint256) \<times> factJson
     \<Rightarrow> abort + (registry \<times> outcome)" where
  "processFact P signer reg x =
     (case x of (blk, factJson) \<Rightarrow>
        case computeFactHash P factJson of
          Inl thrown \<Rightarrow> Inl thrown
        | Inr computed \<Rightarrow>
            let factHash = computed;
                (exists, st) = checkFactExists reg factHash
            in if exists then Inr (reg, Skipped st)
               else
                 let verdictEnum = verdictToEnum (verdict_field factJson);
                     severityEnum = severityToEnum (severity_field factJson);
                     issuedAt = isoToUnix P (issued_at factJson);
                     lastReviewedAt = isoToUnix P (last_reviewed_at factJson);
                     ver = version_field factJson
                 in if \<not> hasSubstring (claim_text factJson) then Inl TypeError
                    else
                      case abiEncode P verdictEnum severityEnum issuedAt lastReviewedAt ver of
                        None \<Rightarrow> Inr (reg, Failed NotEncodable)
                      | Some (v, sv, ia, lr, ver') \<Rightarrow>
                          (case addFact \<lparr> msg_sender = signer, block_timestamp = fst blk,
                                          block_number = snd blk \<rparr>
                                  reg factHash (id_field factJson) v sv ia lr ver' of
                             Inl e \<Rightarrow> Inr (reg, Failed (Rejected e))
                           | Inr (reg', evs) \<Rightarrow> Inr (reg', Registered)))"

text \<open>The loop over the fact files, with the two counters and the console log. It returns
  the registry it has reached, and the counters and the log unless the script was ended.\<close>

fun forFactFiles ::
  "platform \<Rightarrow> address \<Rightarrow> ((uint256 \<times> uint256) \<times> factJson) list \<Rightarrow> registry \<Rightarrow> nat \<Rightarrow> nat
     \<Rightarrow> outcome list \<Rightarrow> registry \<times> (abort + nat \<times> nat \<times> outcome list)" where
  "forFactFiles P signer [] reg successCount skipCount out =
     (reg, Inr (successCount, skipCount, out))"
| "forFactFiles P signer (x # rest) reg successCount skipCount out =
     (case processFact P signer reg x of
        Inl thrown \<Rightarrow> (reg, Inl thrown)
      | Inr (reg', Skipped st) \<Rightarrow>
          forFactFiles P signer rest reg' successCount (skipCount + 1) (out @ [Skipped st])
      | Inr (reg', Registered) \<Rightarrow>
          forFactFiles P signer rest reg' (successCount + 1) skipCount (out @ [Registered])
      | Inr (reg', Failed f) \<Rightarrow>
          forFactFiles P signer rest reg' successCount skipCount (out @ [Failed f]))"

record report =
  registeredCount :: nat
  skippedCount :: nat
  processedCount :: nat
  onChainTotal :: uint256
  perRecord :: "outcome list"

text \<open>\<^verbatim>\<open>main\<close>: the registry the script leaves, and its summary unless it was ended by a
  thrown error (then the process exits with code 1 and prints no summary).\<close>

definition main ::
  "platform \<Rightarrow> address \<Rightarrow> registry \<Rightarrow> ((uint256 \<times> uint256) \<times> factJson) list
     \<Rightarrow> registry \<times> (abort + report)" where
  "main P signer reg factFiles =
     (if owner reg \<noteq> signer then (reg, Inl SignerIsNotTheContractOwner)
      else
        case forFactFiles P signer factFiles reg 0 0 [] of
          (reg', Inl thrown) \<Rightarrow> (reg', Inl thrown)
        | (reg', Inr (successCount, skipCount, out)) \<Rightarrow>
            (reg', Inr \<lparr> registeredCount = successCount, skippedCount = skipCount,
                         processedCount = length factFiles, onChainTotal = totalFacts reg',
                         perRecord = out \<rparr>))"

text \<open>The registry and the outcomes of a loop that is not ended, without the counters, for
  the proofs.\<close>

fun runFacts ::
  "platform \<Rightarrow> address \<Rightarrow> registry \<Rightarrow> ((uint256 \<times> uint256) \<times> factJson) list
     \<Rightarrow> abort + (registry \<times> outcome list)" where
  "runFacts P signer reg [] = Inr (reg, [])"
| "runFacts P signer reg (x # rest) =
     (case processFact P signer reg x of
        Inl thrown \<Rightarrow> Inl thrown
      | Inr (reg', out) \<Rightarrow>
          (case runFacts P signer reg' rest of
             Inl thrown \<Rightarrow> Inl thrown
           | Inr (reg'', outs) \<Rightarrow> Inr (reg'', out # outs)))"

section \<open>Auxiliary notions for the proofs\<close>

text \<open>A hash is present when the existence probe says so.\<close>

definition present :: "registry \<Rightarrow> bytes32 \<Rightarrow> bool" where
  "present reg h = fst (checkFactExists reg h)"


section \<open>Concrete data for the examples\<close>

definition writer_ctx :: txctx where
  "writer_ctx = \<lparr> msg_sender = 1, block_timestamp = 100, block_number = 7 \<rparr>"

definition other_ctx :: txctx where
  "other_ctx = \<lparr> msg_sender = 2, block_timestamp = 100, block_number = 7 \<rparr>"

definition fresh_registry :: registry where
  "fresh_registry = fst (constructor writer_ctx)"

definition registered_registry :: registry where
  "registered_registry =
     run_txs fresh_registry [(writer_ctx, AddFact 1 ''f-1'' FALSE HIGH 50 50 1)]"

definition withdrawn_registry :: registry where
  "withdrawn_registry = run_txs registered_registry [(writer_ctx, UpdateFactStatus 1 WITHDRAWN)]"

text \<open>The text of a string value.\<close>

fun stringValue :: "json \<Rightarrow> string" where
  "stringValue (Prim (Str t)) = t"
| "stringValue _ = []"

text \<open>A platform for the examples, with the import repaired: the name \<^verbatim>\<open>canonicalize\<close> is
  bound to a function. The digest is the length of the text and the canonical text is the
  claim text, so facts with claim texts of different lengths get different hashes; two dates
  are known; the encoder accepts the enum indices, the unsigned integers of 64 bits and the
  unsigned integers of 16 bits.\<close>

definition repaired_platform :: platform where
  "repaired_platform =
     \<lparr> canonicalize = Function (\<lambda>factJson. stringValue (claim_text factJson)),
       sha256 = (\<lambda>t. of_nat (length t)),
       getTime = (\<lambda>t. if t = ''1970-01-01T00:00:50Z'' then Some 50000
                     else if t = ''2999-01-01T00:00:00Z'' then Some 32472144000000 else None),
       abiEncode = (\<lambda>v sv ia lr ver.
          case (v, sv, ia, lr) of
            (Some a, Some b, Some i, Some l) \<Rightarrow>
              if a < 5 \<and> b < 4 \<and> 0 \<le> i \<and> i < 2 ^ 64 \<and> 0 \<le> l \<and> l < 2 ^ 64 \<and> 0 \<le> ver \<and> ver < 2 ^ 16
              then Some ([TRUE, FALSE, MISLEADING, UNPROVEN, PARTIALLY_TRUE] ! a,
                         [LOW, MEDIUM, HIGH, CRITICAL] ! b, word_of_int i, word_of_int l,
                         word_of_int ver)
              else None
          | _ \<Rightarrow> None) \<rparr>"

text \<open>The same platform with the package as the script imports it.\<close>

definition package_platform :: platform where
  "package_platform = repaired_platform \<lparr> canonicalize := json_canonicalize_package \<rparr>"

definition good_fact :: factJson where
  "good_fact = \<lparr> id_field = ''who-2025-0001'', claim_text = Prim (Str ''X cures Y''),
     verdict_field = ''false'', severity_field = ''high'',
     issued_at = ''1970-01-01T00:00:50Z'', last_reviewed_at = ''1970-01-01T00:00:50Z'',
     version_field = 1, other_fields = [] \<rparr>"

definition bad_fact :: factJson where
  "bad_fact = \<lparr> id_field = ''who-2025-0002'', claim_text = Prim (Str ''Z prevents W''),
     verdict_field = ''false'', severity_field = ''high'',
     issued_at = ''1970-01-01T00:00:50Z'', last_reviewed_at = ''1970-01-01T00:00:50Z'',
     version_field = 0, other_fields = [] \<rparr>"

definition late_fact :: factJson where
  "late_fact = \<lparr> id_field = ''who-2025-0004'', claim_text = Prim (Str ''U heals''),
     verdict_field = ''misleading'', severity_field = ''medium'',
     issued_at = ''2999-01-01T00:00:00Z'', last_reviewed_at = ''2999-01-01T00:00:00Z'',
     version_field = 1, other_fields = [] \<rparr>"

definition example_factData :: "(string \<times> json) list" where
  "example_factData =
     [(''fact_id'', Prim (Str ''org-fact-1'')),
      (''claim_text'', Prim (Str ''X cures Y'')),
      (''verdict'', Prim (Str ''false'')),
      (''severity'', Prim (Str ''high'')),
      (''summary'', Prim (Str ''No evidence.'')),
      (''topics'', Arr [Prim (Str ''myth'')]),
      (''evidence'', Arr [evidenceEntry (''https://who.int/a'', ''A'', ''c0'', ''2025-01-15'')]),
      (''issued_at'', Prim (Str ''2025-01-15T12:00:00Z''))]"

definition other_fact :: factJson where
  "other_fact = \<lparr> id_field = ''who-2025-0003'', claim_text = Prim (Str ''V is entirely safe''),
     verdict_field = ''true'', severity_field = ''low'',
     issued_at = ''1970-01-01T00:00:50Z'', last_reviewed_at = ''1970-01-01T00:00:50Z'',
     version_field = 2, other_fields = [] \<rparr>"

definition example_batch :: "((uint256 \<times> uint256) \<times> factJson) list" where
  "example_batch = [((100, 7), good_fact), ((101, 8), late_fact), ((102, 9), other_fact)]"

definition clean_batch :: "((uint256 \<times> uint256) \<times> factJson) list" where
  "clean_batch = [((100, 7), good_fact), ((102, 9), other_fact)]"

definition bad_batch :: "((uint256 \<times> uint256) \<times> factJson) list" where
  "bad_batch = [((100, 7), bad_fact)]"

definition reordered_a :: "(string \<times> json) list" where
  "reordered_a =
     [(''claim_text'', Prim (Str ''X cures Y'')),
      (''evidence'', Arr [Obj [(''url'', Prim (Str ''u'')), (''title'', Prim (Str ''t''))]]),
      (''fact_id'', Prim (Str ''f-1''))]"

definition reordered_b :: "(string \<times> json) list" where
  "reordered_b =
     [(''fact_id'', Prim (Str ''f-1'')),
      (''evidence'', Arr [Obj [(''title'', Prim (Str ''t'')), (''url'', Prim (Str ''u''))]]),
      (''claim_text'', Prim (Str ''X cures Y''))]"

section \<open>Facts about the contract\<close>

lemma addFact_Inr_iff:
  "addFact c s h fid v sv ia lr ver = Inr r \<longleftrightarrow>
     (msg_sender c = owner s \<and> factHash (factsByHash s h) = 0 \<and> h \<noteq> 0 \<and> fid \<noteq> [] \<and> ver \<noteq> 0 \<and>
      unat ia \<le> unat (block_timestamp c) \<and> ia \<le> lr \<and> hashByFactId s fid = 0 \<and> totalFacts s \<noteq> - 1 \<and>
      r = (s \<lparr> factsByHash := (factsByHash s)(h := \<lparr> factHash = h, factId = fid, verdict = v,
                 severity = sv, issuedAt = ia, lastReviewedAt = lr, version = ver, status = ACTIVE,
                 addedBy = msg_sender c, addedAtBlock = ucast (block_number c) \<rparr>),
               hashByFactId := (hashByFactId s)(fid := h),
               allFactHashes := allFactHashes s @ [h],
               totalFacts := totalFacts s + 1 \<rparr>,
           [FactAdded h (Keccak256 fid) v sv (msg_sender c) ia]))"
  by (auto simp add: addFact_def Let_def word_gt_0)

lemma updateFactStatus_Inr_iff:
  "updateFactStatus c s h st = Inr r \<longleftrightarrow>
     (msg_sender c = owner s \<and> factHash (factsByHash s h) \<noteq> 0 \<and> status (factsByHash s h) \<noteq> st \<and>
      r = (s \<lparr> factsByHash := (factsByHash s)(h := (factsByHash s h) \<lparr> status := st \<rparr>) \<rparr>,
           [FactUpdated h (Keccak256 (factId (factsByHash s h))) (status (factsByHash s h)) st (msg_sender c)
              (ucast (block_timestamp c))]))"
  by (auto simp add: updateFactStatus_def Let_def)

lemma transferOwnership_Inr_iff:
  "transferOwnership c s a = Inr r \<longleftrightarrow>
     (msg_sender c = owner s \<and> a \<noteq> 0 \<and> a \<noteq> owner s \<and>
      r = (s \<lparr> owner := a \<rparr>, [OwnershipTransferred (owner s) a (ucast (block_timestamp c))]))"
  by (auto simp add: transferOwnership_def)

lemma apply_tx_cases:
  "apply_tx s t = s \<or> (\<exists>r. exec s t = Inr r \<and> apply_tx s t = fst r)"
  by (cases "exec s t") (auto simp add: apply_tx_def)

lemma apply_tx_Inl: "exec s t = Inl e \<Longrightarrow> apply_tx s t = s"
  by (simp add: apply_tx_def)

lemma apply_tx_Inr: "exec s t = Inr r \<Longrightarrow> apply_tx s t = fst r"
  by (simp add: apply_tx_def split: prod.splits)

lemma apply_tx_keeps_fact:
  assumes "factHash (factsByHash s h) \<noteq> 0"
  shows "\<exists>st. factsByHash (apply_tx s t) h = (factsByHash s h) \<lparr> status := st \<rparr>"
proof -
  have same: "\<exists>st. factsByHash s h = (factsByHash s h) \<lparr> status := st \<rparr>"
    by (rule exI [of _ "status (factsByHash s h)"]) simp
  obtain c k where t: "t = (c, k)" by (cases t)
  show ?thesis
  proof (cases "exec s t")
    case (Inl e)
    then show ?thesis using same by (simp add: apply_tx_def)
  next
    case (Inr r)
    show ?thesis
    proof (cases k)
      case (AddFact h' fid v sv ia lr ver)
      with Inr t have "addFact c s h' fid v sv ia lr ver = Inr r" by simp
      then have "h' \<noteq> h" and "factsByHash (fst r) h = factsByHash s h"
        using assms by (auto simp add: addFact_Inr_iff)
      then show ?thesis using apply_tx_Inr [OF Inr] same by simp
    next
      case (UpdateFactStatus h' st)
      with Inr t have "updateFactStatus c s h' st = Inr r" by simp
      then have "factsByHash (fst r) h =
          (if h' = h then (factsByHash s h) \<lparr> status := st \<rparr> else factsByHash s h)"
        by (auto simp add: updateFactStatus_Inr_iff)
      then show ?thesis using apply_tx_Inr [OF Inr] same by (cases "h' = h") auto
    next
      case (TransferOwnership a)
      with Inr t have "transferOwnership c s a = Inr r" by simp
      then have "factsByHash (fst r) h = factsByHash s h"
        by (auto simp add: transferOwnership_Inr_iff)
      then show ?thesis using apply_tx_Inr [OF Inr] same by simp
    qed
  qed
qed

lemma run_txs_keeps_fact:
  "factHash (factsByHash s h) \<noteq> 0 \<Longrightarrow>
     \<exists>st. factsByHash (run_txs s txs) h = (factsByHash s h) \<lparr> status := st \<rparr>"
proof (induction txs arbitrary: s)
  case Nil
  show ?case by (simp, rule exI [of _ "status (factsByHash s h)"]) simp
next
  case (Cons t ts)
  from apply_tx_keeps_fact [OF Cons.prems, of t]
  obtain st where st: "factsByHash (apply_tx s t) h = (factsByHash s h) \<lparr> status := st \<rparr>" by blast
  then have "factHash (factsByHash (apply_tx s t) h) \<noteq> 0" using Cons.prems by simp
  from Cons.IH [OF this] obtain st' where
    "factsByHash (run_txs (apply_tx s t) ts) h = (factsByHash (apply_tx s t) h) \<lparr> status := st' \<rparr>"
    by blast
  with st have "factsByHash (run_txs s (t # ts)) h = (factsByHash s h) \<lparr> status := st' \<rparr>" by simp
  then show ?case by blast
qed

text \<open>
  Claim C8. Once a hash is registered, no sequence of transactions (by any callers, reverted
  or not) removes its entry or changes any field of it other than the status:
  \<^verbatim>\<open>getFactByHash\<close> keeps returning the entry with its original fields.
\<close>

theorem registered_fact_is_permanent:
  assumes "factHash (factsByHash s h) \<noteq> 0"
  shows "getFactByHash (run_txs s txs) h =
           Inr ((factsByHash s h) \<lparr> status := status (factsByHash (run_txs s txs) h) \<rparr>)"
proof -
  from run_txs_keeps_fact [OF assms, of txs] obtain st where
    st: "factsByHash (run_txs s txs) h = (factsByHash s h) \<lparr> status := st \<rparr>" by blast
  then show ?thesis using assms by (simp add: getFactByHash_def)
qed

lemma apply_tx_keeps_zero:
  assumes "factsByHash s h = zeroFact" and "\<not> registers s t h"
  shows "factsByHash (apply_tx s t) h = zeroFact"
proof -
  obtain c k where t: "t = (c, k)" by (cases t)
  show ?thesis
  proof (cases "exec s t")
    case (Inl e)
    then show ?thesis using assms by (simp add: apply_tx_def)
  next
    case (Inr r)
    show ?thesis
    proof (cases k)
      case (AddFact h' fid v sv ia lr ver)
      with Inr t have r: "addFact c s h' fid v sv ia lr ver = Inr r" by simp
      with assms(2) t AddFact have "h' \<noteq> h" by auto
      with r have "factsByHash (fst r) h = factsByHash s h"
        by (auto simp add: addFact_Inr_iff)
      then show ?thesis using apply_tx_Inr [OF Inr] assms by simp
    next
      case (UpdateFactStatus h' st)
      with Inr t have "updateFactStatus c s h' st = Inr r" by simp
      then have "factsByHash (fst r) h = factsByHash s h"
        using assms(1) by (auto simp add: updateFactStatus_Inr_iff zeroFact_def)
      then show ?thesis using apply_tx_Inr [OF Inr] assms by simp
    next
      case (TransferOwnership a)
      with Inr t have "transferOwnership c s a = Inr r" by simp
      then have "factsByHash (fst r) h = factsByHash s h"
        by (auto simp add: transferOwnership_Inr_iff)
      then show ?thesis using apply_tx_Inr [OF Inr] assms by simp
    qed
  qed
qed

lemma run_txs_keeps_zero:
  "factsByHash s h = zeroFact \<Longrightarrow> \<not> ever_registered s txs h \<Longrightarrow>
     factsByHash (run_txs s txs) h = zeroFact"
  by (induction txs arbitrary: s) (auto simp add: apply_tx_keeps_zero)

text \<open>
  Claim C10. For a hash that no transaction since deployment has registered,
  \<^verbatim>\<open>checkFactExists\<close> returns \<open>(False, ACTIVE)\<close>. A hash that was just registered gives
  \<open>(True, ACTIVE)\<close>: the status alone does not tell the two apart.
\<close>

theorem probe_of_unregistered_hash:
  "(\<not> ever_registered (fst (constructor c0)) txs h \<longrightarrow>
      checkFactExists (run_txs (fst (constructor c0)) txs) h = (False, ACTIVE)) \<and>
   (addFact c s h fid v sv ia lr ver = Inr (s', evs) \<longrightarrow> checkFactExists s' h = (True, ACTIVE))"
proof (intro conjI impI)
  assume "\<not> ever_registered (fst (constructor c0)) txs h"
  moreover have "factsByHash (fst (constructor c0)) h = zeroFact"
    by (simp add: constructor_def)
  ultimately have "factsByHash (run_txs (fst (constructor c0)) txs) h = zeroFact"
    by (rule run_txs_keeps_zero [rotated])
  then show "checkFactExists (run_txs (fst (constructor c0)) txs) h = (False, ACTIVE)"
    by (simp add: checkFactExists_def zeroFact_def)
next
  assume "addFact c s h fid v sv ia lr ver = Inr (s', evs)"
  then show "checkFactExists s' h = (True, ACTIVE)"
    by (auto simp add: addFact_Inr_iff checkFactExists_def)
qed


section \<open>Facts about the script\<close>

lemma present_iff: "present reg h \<longleftrightarrow> factHash (factsByHash reg h) \<noteq> 0"
  by (simp add: present_def checkFactExists_def Let_def)

text \<open>The module object of the package is not callable.\<close>

lemma computeFactHash_package:
  "canonicalize P = json_canonicalize_package \<Longrightarrow> computeFactHash P factJson = Inl TypeError"
  by (simp add: computeFactHash_def json_canonicalize_package_def)

lemma processFact_cases:
  obtains (thrown_by_hash) e where "computeFactHash P (snd x) = Inl e"
      and "processFact P signer reg x = Inl e"
  | (skipped) h st where "computeFactHash P (snd x) = Inr h" and "present reg h"
      and "processFact P signer reg x = Inr (reg, Skipped st)"
  | (thrown_by_text) h where "computeFactHash P (snd x) = Inr h" and "\<not> present reg h"
      and "\<not> hasSubstring (claim_text (snd x))"
      and "processFact P signer reg x = Inl TypeError"
  | (failed) h f where "computeFactHash P (snd x) = Inr h" and "\<not> present reg h"
      and "hasSubstring (claim_text (snd x))"
      and "processFact P signer reg x = Inr (reg, Failed f)"
  | (registered) h c v sv ia lr ver evs reg' where "computeFactHash P (snd x) = Inr h"
      and "\<not> present reg h" and "hasSubstring (claim_text (snd x))"
      and "addFact c reg h (id_field (snd x)) v sv ia lr ver = Inr (reg', evs)"
      and "processFact P signer reg x = Inr (reg', Registered)"
proof -
  obtain blk fj where x: "x = (blk, fj)" by (cases x)
  show ?thesis
  proof (cases "computeFactHash P fj")
    case (Inl e)
    then have "processFact P signer reg x = Inl e" using x by (simp add: processFact_def)
    with Inl x show ?thesis by (intro thrown_by_hash) simp_all
  next
    case (Inr h)
    note h = Inr
    show ?thesis
    proof (cases "present reg h")
      case True
      then have "processFact P signer reg x = Inr (reg, Skipped (status (factsByHash reg h)))"
        using x h by (simp add: processFact_def present_iff checkFactExists_def Let_def)
      with True h x show ?thesis by (intro skipped) simp_all
    next
      case False
      note absent = False
      show ?thesis
      proof (cases "hasSubstring (claim_text fj)")
        case False
        then have "processFact P signer reg x = Inl TypeError"
          using x h absent by (simp add: processFact_def present_iff checkFactExists_def Let_def)
        with False h absent x show ?thesis by (intro thrown_by_text) simp_all
      next
        case True
        note str = True
        let ?enc = "abiEncode P (verdictToEnum (verdict_field fj)) (severityToEnum (severity_field fj))
          (isoToUnix P (issued_at fj)) (isoToUnix P (last_reviewed_at fj)) (version_field fj)"
        show ?thesis
        proof (cases ?enc)
          case None
          then have "processFact P signer reg x = Inr (reg, Failed NotEncodable)"
            using x h absent str by (simp add: processFact_def present_iff checkFactExists_def Let_def)
          with h absent str x show ?thesis by (intro failed) simp_all
        next
          case (Some args)
          obtain v sv ia lr ver where args: "args = (v, sv, ia, lr, ver)" by (cases args)
          let ?c = "\<lparr> msg_sender = signer, block_timestamp = fst blk, block_number = snd blk \<rparr>"
          show ?thesis
          proof (cases "addFact ?c reg h (id_field fj) v sv ia lr ver")
            case (Inl e)
            then have "processFact P signer reg x = Inr (reg, Failed (Rejected e))"
              using x h absent str Some args
              by (simp add: processFact_def present_iff checkFactExists_def Let_def)
            with h absent str x show ?thesis by (intro failed) simp_all
          next
            case (Inr r)
            obtain reg' evs where r: "r = (reg', evs)" by (cases r)
            have "processFact P signer reg x = Inr (reg', Registered)"
              using x h absent str Some args Inr r
              by (simp add: processFact_def present_iff checkFactExists_def Let_def)
            moreover have "addFact ?c reg h (id_field (snd x)) v sv ia lr ver = Inr (reg', evs)"
              using Inr r x by simp
            ultimately show ?thesis using h absent str x by (intro registered) simp_all
          qed
        qed
      qed
    qed
  qed
qed







lemma processFact_failed_unchanged:
  "processFact P signer reg x = Inr (reg', Failed f) \<Longrightarrow> reg' = reg"
  by (cases rule: processFact_cases [of P x signer reg]) auto












text \<open>When the name \<^verbatim>\<open>canonicalize\<close> is bound to a function and the claim texts are strings,
  nothing is thrown outside the \<^verbatim>\<open>try\<close> block: every record has its outcome.\<close>

lemma processFact_completes:
  assumes "canonicalize P = Function f" and "hasSubstring (claim_text (snd x))"
  shows "\<exists>reg' r. processFact P signer reg x = Inr (reg', r)"
proof -
  have "computeFactHash P (snd x) = Inr (sha256 P (f (snd x)))"
    using assms(1) by (simp add: computeFactHash_def)
  then show ?thesis using assms(2)
    by (cases rule: processFact_cases [of P x signer reg]) auto
qed

lemma runFacts_completes:
  assumes "canonicalize P = Function f" and "\<forall>x \<in> set xs. hasSubstring (claim_text (snd x))"
  shows "\<exists>reg' outs. runFacts P signer reg xs = Inr (reg', outs)"
  using assms(2)
proof (induction xs arbitrary: reg)
  case Nil
  show ?case by simp
next
  case (Cons x xs)
  from Cons.prems have "hasSubstring (claim_text (snd x))" by simp
  from processFact_completes [OF assms(1) this]
  obtain reg1 r where p: "processFact P signer reg x = Inr (reg1, r)" by blast
  from Cons.prems have "\<forall>x \<in> set xs. hasSubstring (claim_text (snd x))" by simp
  from Cons.IH [OF this]
  obtain reg' outs where "runFacts P signer reg1 xs = Inr (reg', outs)" by blast
  with p show ?case by simp
qed

text \<open>A call of \<^verbatim>\<open>addFact\<close> that the contract rejects is caught and recorded with its
  reason; the registry is as it was.\<close>

lemma rejection_is_recorded:
  assumes "computeFactHash P fj = Inr h" and "\<not> present reg h"
    and "hasSubstring (claim_text fj)"
    and "abiEncode P (verdictToEnum (verdict_field fj)) (severityToEnum (severity_field fj))
           (isoToUnix P (issued_at fj)) (isoToUnix P (last_reviewed_at fj)) (version_field fj)
         = Some (v, sv, ia, lr, ver)"
    and "addFact \<lparr> msg_sender = signer, block_timestamp = fst blk, block_number = snd blk \<rparr>
           reg h (id_field fj) v sv ia lr ver = Inl e"
  shows "processFact P signer reg (blk, fj) = Inr (reg, Failed (Rejected e))"
  using assms by (cases "checkFactExists reg h") (simp add: processFact_def present_def Let_def)

text \<open>With the package as it is published, the script run by the owner is ended at the
  first record of every batch that has one.\<close>

lemma main_ended_by_import:
  assumes "canonicalize P = json_canonicalize_package" and "owner reg = signer"
    and "batch \<noteq> []"
  shows "main P signer reg batch = (reg, Inl TypeError)"
proof -
  from assms(3) obtain x xs where batch: "batch = x # xs" by (cases batch) auto
  obtain blk fj where x: "x = (blk, fj)" by (cases x)
  have "processFact P signer reg x = Inl TypeError"
    by (simp add: x processFact_def computeFactHash_package [OF assms(1)])
  then show ?thesis using assms(2) by (simp add: main_def batch)
qed

section \<open>Facts about the canonicalizer\<close>

lemma sort_keys_eq:
  assumes "distinct (xs :: string list)" and "distinct ys" and "set xs = set ys"
  shows "sort xs = sort ys"
proof (rule sorted_distinct_set_unique)
  show "sorted (sort xs)" and "sorted (sort ys)" by simp_all
  show "distinct (sort xs)" and "distinct (sort ys)" using assms by simp_all
  show "set (sort xs) = set (sort ys)" using assms by simp
qed

lemma canonicalizeJSON_key_order:
  "sameUpToKeyOrder r1 r2 \<Longrightarrow> canonicalizeJSON r1 = canonicalizeJSON r2"
proof (induction rule: sameUpToKeyOrder.induct)
  case (prim p)
  show ?case by simp
next
  case (arr xs ys)
  then have "map (\<lambda>x. joinItem (canonicalizeJSON x)) xs = map (\<lambda>x. joinItem (canonicalizeJSON x)) ys"
    by (induction rule: list_all2_induct) simp_all
  then show ?case by simp
next
  case (obj kvs kvs')
  have keys: "sort (map fst kvs) = sort (map fst kvs')"
    using obj(1-3) by (rule sort_keys_eq)
  have "(case map_of kvs key of None \<Rightarrow> None | Some v \<Rightarrow> canonicalizeJSON v) =
        (case map_of kvs' key of None \<Rightarrow> None | Some v \<Rightarrow> canonicalizeJSON v)" for key
  proof (cases "map_of kvs key")
    case None
    then have "key \<notin> set (map fst kvs')" using obj(3) by (simp add: map_of_eq_None_iff)
    then have "map_of kvs' key = None" by (simp add: map_of_eq_None_iff)
    with None show ?thesis by simp
  next
    case (Some v)
    then have "key \<in> set (map fst kvs')" using obj(3) by (metis map_of_eq_None_iff option.distinct(1) set_map)
    then obtain v' where v': "map_of kvs' key = Some v'"
      by (metis map_of_eq_None_iff not_Some_eq set_map)
    with Some obj(4) have "canonicalizeJSON v = canonicalizeJSON v'" by blast
    with Some v' show ?thesis by simp
  qed
  then show ?case using keys by (simp add: Let_def)
qed

lemma digitChar_inj: "a < 16 \<Longrightarrow> b < 16 \<Longrightarrow> digitChar a = digitChar b \<Longrightarrow> a = b"
proof -
  assume a: "a < 16" and b: "b < 16" and eq: "digitChar a = digitChar b"
  have d: "distinct ''0123456789abcdef''" by simp
  have "a < length ''0123456789abcdef''" "b < length ''0123456789abcdef''" using a b by simp_all
  with d eq show "a = b" unfolding digitChar_def by (simp only: nth_eq_iff_index_eq)
qed

lemma escapeChar_cases:
  obtains (named) e where "escapeChar c = [CHR 0x5C, e]" and "((of_char c :: nat), e) \<in> {(8, CHR ''b''), (9, CHR ''t''), (10, CHR ''n''), (12, CHR ''f''),
       (13, CHR ''r''), (34, CHR 0x22), (92, CHR 0x5C)}"
  | (hex) "escapeChar c = [CHR 0x5C, CHR ''u'', CHR ''0'', CHR ''0'', digitChar ((of_char c :: nat) div 16), digitChar ((of_char c :: nat) mod 16)]"
     and "(of_char c :: nat) < 32"
  | (plain) "escapeChar c = [c]" and "c \<noteq> CHR 0x5C" and "c \<noteq> CHR 0x22"
proof -
  consider "(of_char c :: nat) \<in> {8, 9, 10, 12, 13, 34, 92}"
    | "(of_char c :: nat) \<notin> {8, 9, 10, 12, 13, 34, 92}" and "(of_char c :: nat) < 32"
    | "(of_char c :: nat) \<notin> {8, 9, 10, 12, 13, 34, 92}" and "\<not> (of_char c :: nat) < 32"
    by blast
  then show ?thesis
  proof cases
    case 1
    then show ?thesis by (intro named [of "escapeChar c ! 1"]) (auto simp add: escapeChar_def Let_def)
  next
    case 2
    then show ?thesis by (intro hex) (auto simp add: escapeChar_def Let_def)
  next
    case 3
    then have "escapeChar c = [c]" by (auto simp add: escapeChar_def Let_def)
    moreover have "c \<noteq> CHR 0x5C" "c \<noteq> CHR 0x22" using 3 by auto
    ultimately show ?thesis by (rule plain)
  qed
qed


lemma escapeChar_prefix:
  assumes "escapeChar c @ r = escapeChar c' @ r'"
  shows "c = c' \<and> r = r'"
proof (cases c rule: escapeChar_cases)
  case (named e)
  note c = this
  show ?thesis
  proof (cases c' rule: escapeChar_cases)
    case (named e')
    with c assms have "e = e'" and r: "r = r'" by simp_all
    with c(2) named(2) have "(of_char c :: nat) = of_char c'" by (auto simp del: of_char_eq_iff)
    then show ?thesis using r by simp
  next
    case hex
    with c assms show ?thesis by auto
  next
    case plain
    with c assms show ?thesis by auto
  qed
next
  case hex
  note c = this
  show ?thesis
  proof (cases c' rule: escapeChar_cases)
    case (named e')
    with c assms show ?thesis by auto
  next
    case hex
    with c assms have d: "digitChar ((of_char c :: nat) div 16) = digitChar ((of_char c' :: nat) div 16)"
      and m: "digitChar ((of_char c :: nat) mod 16) = digitChar ((of_char c' :: nat) mod 16)"
      and r: "r = r'" by simp_all
    have "(of_char c :: nat) div 16 = of_char c' div 16"
      using d by (rule digitChar_inj [rotated 2]) (use c hex in simp_all)
    moreover have "(of_char c :: nat) mod 16 = of_char c' mod 16"
      using m by (rule digitChar_inj [rotated 2]) simp_all
    ultimately have "(of_char c :: nat) = of_char c'"
      by (metis div_mult_mod_eq)
    then show ?thesis using r by simp
  next
    case plain
    with c assms show ?thesis by auto
  qed
next
  case plain
  note c = this
  show ?thesis
  proof (cases c' rule: escapeChar_cases)
    case (named e')
    with c assms show ?thesis by auto
  next
    case hex
    with c assms show ?thesis by auto
  next
    case plain
    with c assms show ?thesis by auto
  qed
qed


lemma escapeChar_not_quote: "escapeChar c @ r \<noteq> CHR 0x22 # r'"
  by (cases c rule: escapeChar_cases) auto

lemma escaped_body_prefix:
  "concat (map escapeChar a) @ CHR 0x22 # r = concat (map escapeChar b) @ CHR 0x22 # r' \<Longrightarrow>
     a = b \<and> r = r'"
proof (induction a arbitrary: b)
  case Nil
  then show ?case
  proof (cases b)
    case Nil
    with Nil.prems show ?thesis by simp
  next
    case (Cons c cs)
    with Nil.prems have "escapeChar c @ (concat (map escapeChar cs) @ CHR 0x22 # r') = CHR 0x22 # r"
      by simp
    then show ?thesis using escapeChar_not_quote by blast
  qed
next
  case (Cons x xs)
  show ?case
  proof (cases b)
    case Nil
    with Cons.prems have "escapeChar x @ (concat (map escapeChar xs) @ CHR 0x22 # r) = CHR 0x22 # r'"
      by simp
    then show ?thesis using escapeChar_not_quote by blast
  next
    case (Cons c cs)
    with Cons.prems have "escapeChar x @ (concat (map escapeChar xs) @ CHR 0x22 # r) =
        escapeChar c @ (concat (map escapeChar cs) @ CHR 0x22 # r')"
      by simp
    then have "x = c" and "concat (map escapeChar xs) @ CHR 0x22 # r = concat (map escapeChar cs) @ CHR 0x22 # r'"
      using escapeChar_prefix by blast+
    with Cons.IH Cons show ?thesis by blast
  qed
qed

lemma QuoteJSONString_prefix:
  "QuoteJSONString a @ r = QuoteJSONString b @ r' \<Longrightarrow> a = b \<and> r = r'"
  using escaped_body_prefix [of a r b r'] by (simp add: QuoteJSONString_def)

lemma QuoteJSONString_inj: "QuoteJSONString a = QuoteJSONString b \<Longrightarrow> a = b"
  using QuoteJSONString_prefix [of a "[]" b "[]"] by simp


lemma canonical_factObj:
  "canonicalizeJSON (factObj d) = Some (''{'' @ join '',''
     [pairText ''claim'' (canonicalizeJSON (getField d ''claim_text'')),
      pairText ''evidence'' (canonicalizeJSON
         (if truthy (getField d ''evidence'') then getField d ''evidence'' else Arr [])),
      pairText ''id'' (canonicalizeJSON (getField d ''fact_id'')),
      pairText ''issued_at'' (canonicalizeJSON (getField d ''issued_at'')),
      pairText ''last_reviewed_at'' (canonicalizeJSON (getField d ''issued_at'')),
      pairText ''severity'' (canonicalizeJSON (getField d ''severity'')),
      pairText ''status'' (Some (QuoteJSONString ''active'')),
      pairText ''summary'' (canonicalizeJSON (getField d ''summary'')),
      pairText ''topics'' (canonicalizeJSON
         (if truthy (getField d ''topics'') then getField d ''topics'' else Arr [])),
      pairText ''verdict'' (canonicalizeJSON (getField d ''verdict'')),
      pairText ''version'' (Some ''1'')] @ ''}'')"
  by (simp add: factObj_def Let_def NumberToString_def digits.simps digitChar_def)




lemma pairText_Some: "pairText key (Some t) = CHR 0x22 # key @ CHR 0x22 # CHR '':'' # t"
  by (simp add: pairText_def templateValue_def)


































section \<open>The claims about the contract\<close>

lemmas registry_example_defs = writer_ctx_def other_ctx_def fresh_registry_def
  registered_registry_def withdrawn_registry_def constructor_def apply_tx_def addFact_def
  updateFactStatus_def zeroFact_def Let_def

text \<open>
  Claim C1, as the contract has it. \<^verbatim>\<open>updateFactStatus\<close> changes a status only for the owner:
  any other caller is rejected. Called by the owner on a registered hash with a status that
  differs from the current one, it succeeds and sets that status, whatever the current
  status is: the contract has no terminal status, so an entry that is \<open>SUPERSEDED\<close> or
  \<open>WITHDRAWN\<close> can be made \<open>ACTIVE\<close> again or moved to the other of the two.
\<close>

theorem status_update_unrestricted:
  "(msg_sender c \<noteq> owner s \<longrightarrow> updateFactStatus c s h st = Inl CallerIsNotTheOwner) \<and>
   (msg_sender c = owner s \<and> factHash (factsByHash s h) \<noteq> 0 \<and> status (factsByHash s h) \<noteq> st \<longrightarrow>
      updateFactStatus c s h st =
        Inr (s \<lparr> factsByHash := (factsByHash s)(h := (factsByHash s h) \<lparr> status := st \<rparr>) \<rparr>,
             [FactUpdated h (Keccak256 (factId (factsByHash s h))) (status (factsByHash s h)) st (msg_sender c)
                (ucast (block_timestamp c))]) \<and>
      status (factsByHash (apply_tx s (c, UpdateFactStatus h st)) h) = st)"
  by (simp add: updateFactStatus_def apply_tx_def Let_def)

text \<open>An instance.\<close>

theorem status_update_unrestricted_witness:
  "status (factsByHash withdrawn_registry 1) = WITHDRAWN \<and>
   updateFactStatus other_ctx withdrawn_registry 1 ACTIVE = Inl CallerIsNotTheOwner \<and>
   status (factsByHash (apply_tx withdrawn_registry (writer_ctx, UpdateFactStatus 1 ACTIVE)) 1) = ACTIVE"
proof -
  have a: "msg_sender other_ctx \<noteq> owner withdrawn_registry"
    by (simp add: registry_example_defs)
  have b: "msg_sender writer_ctx = owner withdrawn_registry \<and>
      factHash (factsByHash withdrawn_registry 1) \<noteq> 0 \<and>
      status (factsByHash withdrawn_registry 1) \<noteq> ACTIVE"
    by (simp add: registry_example_defs)
  have c: "status (factsByHash withdrawn_registry 1) = WITHDRAWN"
    by (simp add: registry_example_defs)
  from a b c status_update_unrestricted [of other_ctx withdrawn_registry 1 ACTIVE]
    status_update_unrestricted [of writer_ctx withdrawn_registry 1 ACTIVE]
  show ?thesis by blast
qed

text \<open>
  Claim C1 as stated fails: the owner moves a withdrawn fact back to \<open>ACTIVE\<close>, and to
  \<open>SUPERSEDED\<close>.
\<close>

theorem terminal_status_left:
  "status (factsByHash withdrawn_registry 1) = WITHDRAWN \<and>
   \<not> isl (updateFactStatus writer_ctx withdrawn_registry 1 ACTIVE) \<and>
   status (factsByHash (run_txs withdrawn_registry [(writer_ctx, UpdateFactStatus 1 ACTIVE)]) 1) = ACTIVE \<and>
   \<not> isl (updateFactStatus writer_ctx withdrawn_registry 1 SUPERSEDED) \<and>
   status (factsByHash (run_txs withdrawn_registry [(writer_ctx, UpdateFactStatus 1 SUPERSEDED)]) 1)
     = SUPERSEDED"
  by (simp add: registry_example_defs)

lemma apply_tx_keeps_id:
  assumes "hashByFactId s fid \<noteq> 0"
  shows "hashByFactId (apply_tx s t) fid = hashByFactId s fid"
proof -
  obtain c k where t: "t = (c, k)" by (cases t)
  show ?thesis
  proof (cases "exec s t")
    case (Inl e)
    then show ?thesis by (simp add: apply_tx_Inl)
  next
    case (Inr r)
    show ?thesis
    proof (cases k)
      case (AddFact h' fid' v sv ia lr ver)
      with Inr t have "addFact c s h' fid' v sv ia lr ver = Inr r" by simp
      then have "hashByFactId (fst r) fid = hashByFactId s fid"
        using assms by (auto simp add: addFact_Inr_iff)
      then show ?thesis using apply_tx_Inr [OF Inr] by simp
    next
      case (UpdateFactStatus h' st)
      with Inr t have "updateFactStatus c s h' st = Inr r" by simp
      then have "hashByFactId (fst r) fid = hashByFactId s fid"
        by (auto simp add: updateFactStatus_Inr_iff)
      then show ?thesis using apply_tx_Inr [OF Inr] by simp
    next
      case (TransferOwnership a)
      with Inr t have "transferOwnership c s a = Inr r" by simp
      then have "hashByFactId (fst r) fid = hashByFactId s fid"
        by (auto simp add: transferOwnership_Inr_iff)
      then show ?thesis using apply_tx_Inr [OF Inr] by simp
    qed
  qed
qed

lemma run_txs_keeps_id:
  "hashByFactId s fid \<noteq> 0 \<Longrightarrow> hashByFactId (run_txs s txs) fid = hashByFactId s fid"
proof (induction txs arbitrary: s)
  case Nil
  show ?case by simp
next
  case (Cons t ts)
  have step: "hashByFactId (apply_tx s t) fid = hashByFactId s fid"
    using Cons.prems by (rule apply_tx_keeps_id)
  with Cons.prems have "hashByFactId (apply_tx s t) fid \<noteq> 0" by simp
  from Cons.IH [OF this] step show ?case by simp
qed

text \<open>
  Claim C3, as the contract has it. \<^verbatim>\<open>addFact\<close> fails with "fact ID already exists" exactly
  when every earlier check passes and the fact id maps to some hash, whatever the status of
  that hash. The mapping of a fact id is never cleared or changed by any transaction, so a
  fact id that was registered once can never be registered again, also after its hash was
  superseded or withdrawn.
\<close>

theorem fact_id_conflict_whatever_status:
  "(addFact c s h fid v sv ia lr ver = Inl FactIdAlreadyExists \<longleftrightarrow>
      msg_sender c = owner s \<and> factHash (factsByHash s h) = 0 \<and> h \<noteq> 0 \<and> fid \<noteq> [] \<and> ver \<noteq> 0 \<and>
      unat ia \<le> unat (block_timestamp c) \<and> ia \<le> lr \<and> hashByFactId s fid \<noteq> 0) \<and>
   (hashByFactId s fid \<noteq> 0 \<longrightarrow>
      hashByFactId (run_txs s txs) fid = hashByFactId s fid \<and>
      isl (addFact c (run_txs s txs) h fid v sv ia lr ver))"
proof (intro conjI impI)
  show "addFact c s h fid v sv ia lr ver = Inl FactIdAlreadyExists \<longleftrightarrow>
      msg_sender c = owner s \<and> factHash (factsByHash s h) = 0 \<and> h \<noteq> 0 \<and> fid \<noteq> [] \<and> ver \<noteq> 0 \<and>
      unat ia \<le> unat (block_timestamp c) \<and> ia \<le> lr \<and> hashByFactId s fid \<noteq> 0"
    by (auto simp add: addFact_def Let_def word_gt_0)
next
  assume m: "hashByFactId s fid \<noteq> 0"
  then show k: "hashByFactId (run_txs s txs) fid = hashByFactId s fid"
    by (rule run_txs_keeps_id)
  show "isl (addFact c (run_txs s txs) h fid v sv ia lr ver)"
  proof (cases "addFact c (run_txs s txs) h fid v sv ia lr ver")
    case (Inl e)
    then show ?thesis by simp
  next
    case (Inr r)
    then have "hashByFactId (run_txs s txs) fid = 0" by (simp add: addFact_Inr_iff)
    with k m show ?thesis by simp
  qed
qed

text \<open>An instance.\<close>

theorem fact_id_conflict_whatever_status_witness:
  "hashByFactId registered_registry ''f-1'' \<noteq> 0 \<and>
   status (factsByHash withdrawn_registry (hashByFactId withdrawn_registry ''f-1'')) = WITHDRAWN \<and>
   hashByFactId withdrawn_registry ''f-1'' = hashByFactId registered_registry ''f-1'' \<and>
   isl (addFact writer_ctx withdrawn_registry 2 ''f-1'' FALSE HIGH 50 50 1)"
proof -
  have m: "hashByFactId registered_registry ''f-1'' \<noteq> 0"
    by (simp add: registry_example_defs)
  have w: "status (factsByHash withdrawn_registry (hashByFactId withdrawn_registry ''f-1'')) = WITHDRAWN"
    by (simp add: registry_example_defs)
  from fact_id_conflict_whatever_status [of writer_ctx registered_registry 2 "''f-1''" FALSE HIGH 50 50 1
      "[(writer_ctx, UpdateFactStatus 1 WITHDRAWN)]"] m
  have "hashByFactId withdrawn_registry ''f-1'' = hashByFactId registered_registry ''f-1'' \<and>
      isl (addFact writer_ctx withdrawn_registry 2 ''f-1'' FALSE HIGH 50 50 1)"
    unfolding withdrawn_registry_def by blast
  with m w show ?thesis by blast
qed

text \<open>
  Claim C3 as stated fails: the hash of \<open>f-1\<close> is withdrawn, and registering \<open>f-1\<close> with a new
  hash is still rejected with "fact ID already exists".
\<close>

theorem withdrawn_fact_id_not_reusable:
  "status (factsByHash withdrawn_registry 1) = WITHDRAWN \<and>
   hashByFactId withdrawn_registry ''f-1'' = 1 \<and>
   factHash (factsByHash withdrawn_registry 2) = 0 \<and>
   addFact writer_ctx withdrawn_registry 2 ''f-1'' FALSE HIGH 50 50 1 = Inl FactIdAlreadyExists"
  by (simp add: registry_example_defs)




text \<open>An instance.\<close>

theorem registered_fact_is_permanent_witness:
  "factHash (factsByHash registered_registry 1) \<noteq> 0 \<and>
   getFactByHash
     (run_txs registered_registry
        [(writer_ctx, UpdateFactStatus 1 WITHDRAWN),
         (writer_ctx, AddFact 2 ''f-2'' TRUE LOW 60 60 1),
         (writer_ctx, AddFact 1 ''f-3'' TRUE LOW 60 60 1),
         (writer_ctx, TransferOwnership 2)]) 1 =
     Inr ((factsByHash registered_registry 1) \<lparr> status := WITHDRAWN \<rparr>)"
proof -
  have h: "factHash (factsByHash registered_registry 1) \<noteq> 0"
    by (simp add: registry_example_defs)
  have st: "status (factsByHash
     (run_txs registered_registry
        [(writer_ctx, UpdateFactStatus 1 WITHDRAWN),
         (writer_ctx, AddFact 2 ''f-2'' TRUE LOW 60 60 1),
         (writer_ctx, AddFact 1 ''f-3'' TRUE LOW 60 60 1),
         (writer_ctx, TransferOwnership 2)]) 1) = WITHDRAWN"
    by (simp add: registry_example_defs transferOwnership_def)
  note registered_fact_is_permanent [OF h, of
        "[(writer_ctx, UpdateFactStatus 1 WITHDRAWN),
         (writer_ctx, AddFact 2 ''f-2'' TRUE LOW 60 60 1),
         (writer_ctx, AddFact 1 ''f-3'' TRUE LOW 60 60 1),
         (writer_ctx, TransferOwnership 2)]"]
  from h this [unfolded st] show ?thesis by (rule conjI)
qed

text \<open>An instance.\<close>

theorem probe_of_unregistered_hash_witness:
  "\<not> ever_registered (fst (constructor writer_ctx))
       [(writer_ctx, AddFact 1 ''f-1'' FALSE HIGH 50 50 1),
        (other_ctx, AddFact 5 ''f-5'' FALSE HIGH 50 50 1),
        (writer_ctx, UpdateFactStatus 5 WITHDRAWN)] 5 \<and>
   checkFactExists (run_txs (fst (constructor writer_ctx))
       [(writer_ctx, AddFact 1 ''f-1'' FALSE HIGH 50 50 1),
        (other_ctx, AddFact 5 ''f-5'' FALSE HIGH 50 50 1),
        (writer_ctx, UpdateFactStatus 5 WITHDRAWN)]) 5 = (False, ACTIVE) \<and>
   checkFactExists registered_registry 1 = (True, ACTIVE)"
proof -
  have n: "\<not> ever_registered (fst (constructor writer_ctx))
       [(writer_ctx, AddFact 1 ''f-1'' FALSE HIGH 50 50 1),
        (other_ctx, AddFact 5 ''f-5'' FALSE HIGH 50 50 1),
        (writer_ctx, UpdateFactStatus 5 WITHDRAWN)] 5"
    by (simp add: registry_example_defs)
  have a: "addFact writer_ctx fresh_registry 1 ''f-1'' FALSE HIGH 50 50 1 =
      Inr (registered_registry, [FactAdded 1 (Keccak256 ''f-1'') FALSE HIGH 1 50])"
    by (simp add: registry_example_defs)
  from n a probe_of_unregistered_hash [of writer_ctx _ 5 writer_ctx fresh_registry "''f-1''" FALSE HIGH 50 50 1
      registered_registry "[FactAdded 1 (Keccak256 ''f-1'') FALSE HIGH 1 50]"]
    probe_of_unregistered_hash [of writer_ctx _ 1 writer_ctx fresh_registry "''f-1''" FALSE HIGH 50 50 1
      registered_registry "[FactAdded 1 (Keccak256 ''f-1'') FALSE HIGH 1 50]"]
  show ?thesis by blast
qed


section \<open>The claims about the canonicalizer and the script\<close>

inductive_cases sameObjE: "sameUpToKeyOrder (Obj kvs) (Obj kvs')"

lemma getField_related:
  assumes "sameUpToKeyOrder (Obj d1) (Obj d2)"
  shows "sameUpToKeyOrder (getField d1 k) (getField d2 k)"
proof -
  have keys: "set (map fst d1) = set (map fst d2)"
    using assms by (rule sameObjE) simp
  have vals: "\<forall>k v v'. map_of d1 k = Some v \<longrightarrow> map_of d2 k = Some v' \<longrightarrow> sameUpToKeyOrder v v'"
    using assms by (rule sameObjE) (auto dest: map_of_SomeD)
  show ?thesis
  proof (cases "map_of d1 k")
    case None
    then have "k \<notin> set (map fst d2)" using keys by (simp add: map_of_eq_None_iff)
    then have "map_of d2 k = None" by (simp add: map_of_eq_None_iff)
    with None show ?thesis by (simp add: getField_def sameUpToKeyOrder.prim)
  next
    case (Some v)
    then have "k \<in> set (map fst d2)"
      using keys by (metis map_of_eq_None_iff option.distinct(1) set_map)
    then obtain v' where v': "map_of d2 k = Some v'"
      by (metis map_of_eq_None_iff not_Some_eq set_map)
    with Some vals have "sameUpToKeyOrder v v'" by blast
    with Some v' show ?thesis by (simp add: getField_def)
  qed
qed

lemma truthy_related: "sameUpToKeyOrder a b \<Longrightarrow> truthy a = truthy b"
  by (erule sameUpToKeyOrder.cases) simp_all

lemma canonical_factObj_key_order:
  assumes "sameUpToKeyOrder (Obj d1) (Obj d2)"
  shows "canonicalizeJSON (factObj d1) = canonicalizeJSON (factObj d2)"
proof -
  have f: "canonicalizeJSON (getField d1 k) = canonicalizeJSON (getField d2 k)" for k
    using getField_related [OF assms] by (rule canonicalizeJSON_key_order)
  have t: "truthy (getField d1 k) = truthy (getField d2 k)" for k
    using getField_related [OF assms] by (rule truthy_related)
  have g: "canonicalizeJSON (if truthy (getField d1 k) then getField d1 k else Arr []) =
           canonicalizeJSON (if truthy (getField d2 k) then getField d2 k else Arr [])" for k
    using f [of k] t [of k] by (cases "truthy (getField d2 k)") simp_all
  show ?thesis unfolding canonical_factObj by (simp only: f g)
qed

text \<open>
  Claim C4. Two values that differ only in the insertion order of object keys (at any depth)
  have the same canonical text, and two such fact records get the same hash.
\<close>

theorem canonical_text_ignores_key_order:
  assumes "sameUpToKeyOrder r1 r2"
  shows "canonicalizeJSON r1 = canonicalizeJSON r2 \<and>
         (\<forall>d1 d2. r1 = Obj d1 \<and> r2 = Obj d2 \<longrightarrow> hashFactJSON digest d1 = hashFactJSON digest d2)"
proof (intro conjI allI impI)
  show "canonicalizeJSON r1 = canonicalizeJSON r2"
    using assms by (rule canonicalizeJSON_key_order)
next
  fix d1 d2
  assume "r1 = Obj d1 \<and> r2 = Obj d2"
  with assms have "sameUpToKeyOrder (Obj d1) (Obj d2)" by simp
  then have "canonicalizeJSON (factObj d1) = canonicalizeJSON (factObj d2)"
    by (rule canonical_factObj_key_order)
  then show "hashFactJSON digest d1 = hashFactJSON digest d2"
    by (simp add: hashFactJSON_def)
qed

lemma reordered_related: "sameUpToKeyOrder (Obj reordered_a) (Obj reordered_b)"
proof -
  have inner: "sameUpToKeyOrder (Obj [(''url'', Prim (Str ''u'')), (''title'', Prim (Str ''t''))])
      (Obj [(''title'', Prim (Str ''t'')), (''url'', Prim (Str ''u''))])"
    by (rule sameUpToKeyOrder.obj) (auto simp add: sameUpToKeyOrder.prim split: if_splits)
  then have ev: "sameUpToKeyOrder
      (Arr [Obj [(''url'', Prim (Str ''u'')), (''title'', Prim (Str ''t''))]])
      (Arr [Obj [(''title'', Prim (Str ''t'')), (''url'', Prim (Str ''u''))]])"
    by (intro sameUpToKeyOrder.arr) simp
  show ?thesis
    unfolding reordered_a_def reordered_b_def
    by (rule sameUpToKeyOrder.obj) (auto simp add: sameUpToKeyOrder.prim ev split: if_splits)
qed

text \<open>An instance.\<close>

theorem canonical_text_ignores_key_order_witness:
  "reordered_a \<noteq> reordered_b \<and>
   canonicalizeJSON (Obj reordered_a) = canonicalizeJSON (Obj reordered_b) \<and>
   hashFactJSON (\<lambda>t. t) reordered_a = hashFactJSON (\<lambda>t. t) reordered_b"
proof -
  have "reordered_a \<noteq> reordered_b" by (simp add: reordered_a_def reordered_b_def)
  with canonical_text_ignores_key_order [OF reordered_related, of "\<lambda>t. t"]
  show ?thesis by blast
qed




lemma keys_setField: "map fst (setField kvs k v) = map fst (setField kvs k v')"
  by (induction kvs k v rule: setField.induct) auto

lemma map_of_setField:
  "map_of (setField kvs k v) key = (if key = k then Some v else map_of kvs key)"
  by (induction kvs k v rule: setField.induct) auto

lemma canonical_same_value:
  assumes "canonicalizeJSON v = canonicalizeJSON v'"
  shows "canonicalizeJSON (Obj (setField kvs k v)) = canonicalizeJSON (Obj (setField kvs k v'))"
proof -
  have "(case map_of (setField kvs k v) key of None \<Rightarrow> None | Some x \<Rightarrow> canonicalizeJSON x) =
        (case map_of (setField kvs k v') key of None \<Rightarrow> None | Some x \<Rightarrow> canonicalizeJSON x)" for key
    using assms by (simp add: map_of_setField)
  then show ?thesis
    using keys_setField [of kvs k v v'] by (simp add: Let_def)
qed

text \<open>
  Claim C6, as \<^verbatim>\<open>canonicalizeJSON\<close> has it. The function validates nothing and has no error
  result: every array and every object gets a canonical text, and so does the object that
  \<^verbatim>\<open>hashFactJSON\<close> builds from any input, whichever properties are absent. A non-finite
  number is serialized as \<^verbatim>\<open>null\<close>: the record has the canonical text of the record with
  \<^verbatim>\<open>null\<close> in its place.
\<close>

theorem canonicalizeJSON_rejects_nothing:
  "(\<exists>t. canonicalizeJSON (Arr xs) = Some t) \<and>
   (\<exists>t. canonicalizeJSON (Obj kvs) = Some t) \<and>
   (\<exists>t. canonicalizeJSON (factObj factData) = Some t) \<and>
   canonicalizeJSON (Obj (setField kvs k (Prim (Num NaN)))) =
     canonicalizeJSON (Obj (setField kvs k (Prim Null))) \<and>
   canonicalizeJSON (Obj (setField kvs k (Prim (Num PosInfinity)))) =
     canonicalizeJSON (Obj (setField kvs k (Prim Null))) \<and>
   canonicalizeJSON (Obj (setField kvs k (Prim (Num NegInfinity)))) =
     canonicalizeJSON (Obj (setField kvs k (Prim Null)))"
proof (intro conjI)
  show "\<exists>t. canonicalizeJSON (Arr xs) = Some t" by simp
  show "\<exists>t. canonicalizeJSON (Obj kvs) = Some t" by (simp add: Let_def)
  show "\<exists>t. canonicalizeJSON (factObj factData) = Some t" by (simp add: factObj_def Let_def)
  show "canonicalizeJSON (Obj (setField kvs k (Prim (Num NaN)))) =
     canonicalizeJSON (Obj (setField kvs k (Prim Null)))"
    by (rule canonical_same_value) simp
  show "canonicalizeJSON (Obj (setField kvs k (Prim (Num PosInfinity)))) =
     canonicalizeJSON (Obj (setField kvs k (Prim Null)))"
    by (rule canonical_same_value) simp
  show "canonicalizeJSON (Obj (setField kvs k (Prim (Num NegInfinity)))) =
     canonicalizeJSON (Obj (setField kvs k (Prim Null)))"
    by (rule canonical_same_value) simp
qed

text \<open>An instance.\<close>

theorem canonicalizeJSON_rejects_nothing_witness:
  "canonicalizeJSON (Obj (setField example_factData ''version'' (Prim (Num NaN)))) =
     canonicalizeJSON (Obj (setField example_factData ''version'' (Prim Null))) \<and>
   canonicalizeJSON (factObj []) \<noteq> None"
  using canonicalizeJSON_rejects_nothing [of "[]" example_factData "[]" "''version''"]
  by auto

text \<open>
  Claim C6 as stated fails: an object with a \<^verbatim>\<open>NaN\<close> field, and one with an infinite
  number and an undefined property, are serialized.
\<close>

theorem non_finite_number_serialized:
  "canonicalizeJSON (Obj [(''fact_id'', Prim (Str ''f-1'')), (''version'', Prim (Num NaN))]) =
     Some (''{'' @ [CHR 0x22] @ ''fact_id'' @ [CHR 0x22] @ '':'' @ [CHR 0x22] @ ''f-1'' @ [CHR 0x22]
            @ '','' @ [CHR 0x22] @ ''version'' @ [CHR 0x22] @ '':null}'') \<and>
   canonicalizeJSON (Obj [(''version'', Prim (Num PosInfinity)), (''summary'', Prim Undefined)]) =
     Some (''{'' @ [CHR 0x22] @ ''summary'' @ [CHR 0x22] @ '':undefined,''
            @ [CHR 0x22] @ ''version'' @ [CHR 0x22] @ '':null}'')"
  by (simp add: Let_def pairText_def templateValue_def QuoteJSONString_def escapeChar_def)

lemmas script_example_defs = repaired_platform_def package_platform_def
  json_canonicalize_package_def good_fact_def bad_fact_def other_fact_def
  late_fact_def example_batch_def clean_batch_def bad_batch_def
  fresh_registry_def writer_ctx_def constructor_def zeroFact_def
  main_def processFact_def computeFactHash_def checkFactExists_def addFact_def
  verdictToEnum_def severityToEnum_def isoToUnix_def Let_def




text \<open>
  Claim C9 is not what the script does. Run by the owner over three fact files, with the
  package \<^verbatim>\<open>json-canonicalize\<close> as it is published, \<^verbatim>\<open>main\<close> is ended by the \<^verbatim>\<open>TypeError\<close> that
  \<^verbatim>\<open>computeFactHash\<close> throws at the first record, outside the \<^verbatim>\<open>try\<close> block: no record is
  handled, the registry is as it was and there is no summary.
\<close>

theorem batch_ended_at_its_first_record:
  "owner fresh_registry = 1 \<and> length example_batch = 3 \<and>
   main package_platform 1 fresh_registry example_batch = (fresh_registry, Inl TypeError)"
  by (simp add: script_example_defs)

text \<open>The same batch with the name \<^verbatim>\<open>canonicalize\<close> bound to a function: the second record is
  rejected and recorded, and the third is registered.\<close>

lemma repaired_batch_example:
  "snd (main repaired_platform 1 fresh_registry example_batch)
     = Inr \<lparr> registeredCount = 2, skippedCount = 0, processedCount = 3, onChainTotal = 2,
             perRecord = [Registered, Failed (Rejected FutureIssuedAtTimestamp), Registered] \<rparr>"
  by (simp add: script_example_defs)

end
